theory Spec2Isabelle
  imports Main "HOL-Library.Signed_Division"
begin

section \<open>slow.c: a rate-limited copy of standard input to standard output\<close>

text \<open>
  The program is one C function, \<^verbatim>\<open>main\<close>, and the helper \<^verbatim>\<open>usage\<close>.
  Its observable behaviour is the sequence of calls it makes on the C library:
  reads of standard input, writes to standard output and standard error, and
  suspensions. The model keeps that sequence, in program order, as a trace.

  Conventions of the model:
  \<^item> a byte is a \<open>char\<close> (HOL's \<open>char\<close> has exactly the 256 values of a C
    \<^verbatim>\<open>unsigned char\<close>); \<open>of_char\<close> is the conversion to \<^verbatim>\<open>int\<close> that
    \<^verbatim>\<open>fgetc\<close> performs, \<open>char_of\<close> the conversion to \<^verbatim>\<open>unsigned char\<close>
    that \<^verbatim>\<open>fputc\<close> performs;
  \<^item> a C \<^verbatim>\<open>int\<close> is 32 bits wide and is modelled by an \<open>int\<close>; every
    \<^verbatim>\<open>int\<close> of the program is shown to stay within \<open>INT_MIN .. INT_MAX\<close>;
  \<^item> standard input is a finite list of bytes, and a read past its end gives
    \<^verbatim>\<open>EOF\<close>; writes and suspensions always succeed;
  \<^item> line 98 of the source makes standard output unbuffered, so every write
    to it reaches the outside at the call that makes it: a write is an
    event of the trace at the place of its call.
\<close>

type_synonym byte = char

definition INT_MIN :: int where
  "INT_MIN = - 2147483648"

definition INT_MAX :: int where
  "INT_MAX = 2147483647"

definition LONG_MIN :: int where
  "LONG_MIN = - 9223372036854775808"

definition LONG_MAX :: int where
  "LONG_MAX = 9223372036854775807"

definition EOF :: int where
  "EOF = - 1"

subsection \<open>The world outside the program\<close>

datatype event =
    Fgetc int       \<comment> \<open>a call of \<^verbatim>\<open>fgetc(stdin)\<close> and the value it returned\<close>
  | Stdout byte     \<comment> \<open>one byte written to standard output\<close>
  | Stderr byte     \<comment> \<open>one byte written to standard error\<close>
  | Usleep int      \<comment> \<open>a call of \<^verbatim>\<open>usleep\<close> and its argument, in microseconds\<close>

record world =
  stdin :: "byte list"     \<comment> \<open>the bytes of standard input not yet read\<close>
  trace :: "event list"    \<comment> \<open>what the program has done so far, oldest first\<close>

text \<open>What an observer of one stream sees of a trace.\<close>

fun stdout_of :: "event list \<Rightarrow> byte list" where
  "stdout_of [] = []"
| "stdout_of (Stdout b # es) = b # stdout_of es"
| "stdout_of (e # es) = stdout_of es"

fun stderr_of :: "event list \<Rightarrow> byte list" where
  "stderr_of [] = []"
| "stderr_of (Stderr b # es) = b # stderr_of es"
| "stderr_of (e # es) = stderr_of es"

fun usleeps_of :: "event list \<Rightarrow> int list" where
  "usleeps_of [] = []"
| "usleeps_of (Usleep d # es) = d # usleeps_of es"
| "usleeps_of (e # es) = usleeps_of es"

subsection \<open>The C library calls the program makes\<close>

text \<open>
  \<^verbatim>\<open>fgetc\<close> returns the next byte as an \<^verbatim>\<open>unsigned char\<close> converted to
  \<^verbatim>\<open>int\<close>, or \<^verbatim>\<open>EOF\<close> when there is none.
\<close>

definition fgetc :: "world \<Rightarrow> int \<times> world" where
  "fgetc w =
     (case stdin w of
        [] \<Rightarrow> (EOF, w\<lparr>trace := trace w @ [Fgetc EOF]\<rparr>)
      | b # bs \<Rightarrow> (of_char b, w\<lparr>stdin := bs, trace := trace w @ [Fgetc (of_char b)]\<rparr>))"

text \<open>\<^verbatim>\<open>fputc(c, stdout)\<close> writes \<^verbatim>\<open>c\<close> converted to \<^verbatim>\<open>unsigned char\<close>.\<close>

definition fputc :: "int \<Rightarrow> world \<Rightarrow> world" where
  "fputc c w = w\<lparr>trace := trace w @ [Stdout (char_of c)]\<rparr>"

definition usleep :: "int \<Rightarrow> world \<Rightarrow> world" where
  "usleep usec w = w\<lparr>trace := trace w @ [Usleep usec]\<rparr>"

text \<open>
  \<^verbatim>\<open>fprintf\<close> is only called with formats whose expansion is a fixed byte
  string (the \<^verbatim>\<open>%c\<close> conversions are filled with \<^verbatim>\<open>esc\<close>); the two
  functions below take the expanded string.
\<close>

definition fprintf_stdout :: "byte list \<Rightarrow> world \<Rightarrow> world" where
  "fprintf_stdout bs w = w\<lparr>trace := trace w @ map Stdout bs\<rparr>"

definition fprintf_stderr :: "byte list \<Rightarrow> world \<Rightarrow> world" where
  "fprintf_stderr bs w = w\<lparr>trace := trace w @ map Stderr bs\<rparr>"

text \<open>
  \<^verbatim>\<open>atoi\<close> belongs to the C library, not to the program. It is
  \<^verbatim>\<open>(int) strtol(nptr, NULL, 10)\<close>: white space is skipped, an optional sign
  is read, then the longest run of decimal digits; no digits give 0. A value
  outside \<^verbatim>\<open>long\<close> is replaced by \<^verbatim>\<open>LONG_MIN\<close> or \<^verbatim>\<open>LONG_MAX\<close>,
  and the conversion to \<^verbatim>\<open>int\<close> keeps the low 32 bits (glibc on a 64-bit
  platform). No theorem below depends on what happens out of range: every
  one holds for whatever \<^verbatim>\<open>int\<close> comes back.
\<close>

definition isspace :: "char \<Rightarrow> bool" where
  "isspace ch \<longleftrightarrow> ch = CHR '' '' \<or> (9::nat) \<le> of_char ch \<and> (of_char ch::nat) \<le> 13"

definition isdigit :: "char \<Rightarrow> bool" where
  "isdigit ch \<longleftrightarrow> (48::nat) \<le> of_char ch \<and> (of_char ch::nat) \<le> 57"

fun digits_value :: "int \<Rightarrow> string \<Rightarrow> int" where
  "digits_value acc [] = acc"
| "digits_value acc (ch # s) =
     (if isdigit ch then digits_value (acc * 10 + (of_char ch - 48)) s else acc)"

fun skip_sign :: "string \<Rightarrow> bool \<times> string" where
  "skip_sign [] = (False, [])"
| "skip_sign (ch # s) =
     (if ch = CHR ''-'' then (True, s)
      else if ch = CHR ''+'' then (False, s)
      else (False, ch # s))"

definition strtol :: "string \<Rightarrow> int" where
  "strtol nptr =
     (let (negative, s) = skip_sign (dropWhile isspace nptr);
          v = digits_value 0 s
      in if negative then max LONG_MIN (- v) else min LONG_MAX v)"

definition atoi :: "string \<Rightarrow> int" where
  "atoi nptr = signed_take_bit 31 (strtol nptr)"

text \<open>
  The division of two \<^verbatim>\<open>int\<close>s truncates towards zero. It has no value
  (the behaviour is undefined) when the divisor is 0 or the quotient does not
  fit.
\<close>

definition c_div :: "int \<Rightarrow> int \<Rightarrow> int option" where
  "c_div a b =
     (if b = 0 \<or> (a = INT_MIN \<and> b = - 1) then None else Some (a sdiv b))"

subsection \<open>The program\<close>

text \<open>
  How a run ends: \<^verbatim>\<open>exit(status)\<close> called from \<^verbatim>\<open>usage\<close>, or a
  \<^verbatim>\<open>return\<close> from \<^verbatim>\<open>main\<close>, which also gives the values the locals
  \<^verbatim>\<open>bps\<close> and \<^verbatim>\<open>delay\<close> had then, or an operation without a defined
  result.
\<close>

record locals =
  bps_of :: int
  delay_of :: int

datatype outcome =
    Exited int world
  | Returned int locals world
  | Undefined

text \<open>Lines 75 to 78.\<close>

definition usage :: "world \<Rightarrow> outcome" where
  "usage w =
     Exited 1 (fprintf_stderr (''usage: slow [speed] < input.txt'' @ [CHR 0x0A]) w)"

text \<open>
  Lines 104 to 108, the loop
  \<^verbatim>\<open>while ((c = fgetc(stdin)) != EOF) { fputc(c, stdout); if (delay > 4) usleep(delay); }\<close>.
  The loop leaves \<^verbatim>\<open>delay\<close> alone, so it is a parameter.
\<close>

function copy_loop :: "int \<Rightarrow> world \<Rightarrow> world" where
  "copy_loop delay w =
     (let (c, w) = fgetc w
      in if c \<noteq> EOF then
           let w = fputc c w;
               w = (if delay > 4 then usleep delay w else w)
           in copy_loop delay w
         else w)"
  by pat_completeness auto

termination copy_loop
proof (relation "measure (\<lambda>(delay, w). length (stdin w))")
  show "wf (measure (\<lambda>(delay, w). length (stdin w)))"
    by simp
qed (auto simp: fgetc_def fputc_def usleep_def split: list.splits)

text \<open>
  Lines 80 to 114. \<^verbatim>\<open>argv\<close> holds \<^verbatim>\<open>argc\<close> strings, the program's name
  first. The call of \<^verbatim>\<open>setvbuf\<close> on line 98 writes and reads nothing; what
  it changes is when the later writes become visible, and the trace has them
  as that call arranges: each at its own place.
\<close>

definition main :: "string list \<Rightarrow> byte list \<Rightarrow> outcome" where
  "main argv input =
     (let argc = int (length argv);
          w = \<lparr>stdin = input, trace = []\<rparr>;
          bps = 960;
          esc = CHR 0x1B
      in if argc > 2 then usage w
         else
           let bps = (if argc > 1
                      then (let bps = atoi (argv ! 1) in if bps < 10 then 10 else bps)
                      else bps)
           in case c_div (1000 * 1000) bps of
                None \<Rightarrow> Undefined
              | Some delay \<Rightarrow>
                  let w = fprintf_stdout [esc, CHR ''['', CHR ''H'', esc, CHR ''['', CHR ''J''] w;
                      w = copy_loop delay w;
                      w = fprintf_stdout (esc # ''[24;0H'') w
                  in Returned 0 \<lparr>bps_of = bps, delay_of = delay\<rparr> w)"

text \<open>
  One turn of the loop on a byte \<open>b\<close>, as a piece of trace: the read that
  returned \<open>b\<close>, the write of \<open>b\<close>, and the suspension when the test of line
  106 lets it happen.
\<close>

definition byte_events :: "int \<Rightarrow> byte \<Rightarrow> event list" where
  "byte_events delay b =
     [Fgetc (of_char b), Stdout b] @ (if delay > 4 then [Usleep delay] else [])"

text \<open>
  The argument of \<^verbatim>\<open>atoi\<close> holds no number: after the white space and the
  sign there is no digit, so no conversion is performed.
\<close>

definition no_conversion :: "string \<Rightarrow> bool" where
  "no_conversion nptr =
     (case snd (skip_sign (dropWhile isspace nptr)) of
        [] \<Rightarrow> True
      | ch # s \<Rightarrow> \<not> isdigit ch)"

section \<open>Properties\<close>

subsection \<open>The loop and the whole run, as traces\<close>

declare copy_loop.simps [simp del]

lemma of_char_neq_EOF: "(of_char b :: int) \<noteq> EOF"
proof -
  have "(of_char b :: int) = int (of_char b)"
    by (simp only: of_nat_of_char)
  then have "(0::int) \<le> of_char b"
    by linarith
  then show ?thesis
    by (simp add: EOF_def)
qed

lemma fgetc_in_int_range:
  assumes "fgetc w = (c, w')"
  shows "c = EOF \<or> (0 \<le> c \<and> c \<le> 255)"
proof (cases "stdin w")
  case Nil
  then show ?thesis
    using assms by (simp add: fgetc_def)
next
  case (Cons b bs)
  have "(of_char b :: int) = int (of_char b)"
    by (simp only: of_nat_of_char)
  moreover have "(of_char b :: nat) < 256"
    by simp
  ultimately have "0 \<le> (of_char b :: int) \<and> (of_char b :: int) \<le> 255"
    by linarith
  then show ?thesis
    using assms Cons by (auto simp: fgetc_def)
qed

lemma copy_loop_eq:
  "copy_loop delay w =
     \<lparr>stdin = [], trace = trace w @ concat (map (byte_events delay) (stdin w)) @ [Fgetc EOF]\<rparr>"
proof (induction "stdin w" arbitrary: w)
  case Nil
  then have "stdin w = []" by simp
  then show ?case
    by (subst copy_loop.simps) (simp add: fgetc_def)
next
  case (Cons b bs)
  then have w: "stdin w = b # bs" by simp
  let ?w' = "w\<lparr>stdin := bs, trace := trace w @ byte_events delay b\<rparr>"
  have "copy_loop delay w = copy_loop delay ?w'"
    by (subst copy_loop.simps)
      (simp add: w fgetc_def fputc_def usleep_def byte_events_def of_char_neq_EOF)
  also have "\<dots> = \<lparr>stdin = [], trace = trace ?w' @ concat (map (byte_events delay) (stdin ?w')) @ [Fgetc EOF]\<rparr>"
    by (rule Cons.hyps(1)) simp
  finally show ?case
    by (simp add: w)
qed

lemma c_div_rate:
  "10 \<le> rate \<Longrightarrow> c_div (1000 * 1000) rate = Some (1000000 div rate)"
  by (simp add: c_div_def signed_divide_int_def)

text \<open>A run with at most one argument after the program's name.\<close>

lemma main_accepted:
  assumes "length argv \<le> 2"
    and "rate = (if 1 < length argv then max 10 (atoi (argv ! 1)) else 960)"
    and "d = 1000000 div rate"
  shows "main argv input =
     Returned 0 \<lparr>bps_of = rate, delay_of = d\<rparr>
       \<lparr>stdin = [],
        trace = map Stdout [CHR 0x1B, CHR ''['', CHR ''H'', CHR 0x1B, CHR ''['', CHR ''J'']
          @ concat (map (byte_events d) input)
          @ [Fgetc EOF]
          @ map Stdout (CHR 0x1B # ''[24;0H'')\<rparr>"
proof -
  have "10 \<le> rate"
    using assms(2) by simp
  then have "c_div (1000 * 1000) rate = Some d"
    using assms(3) by (simp only: c_div_rate)
  moreover have "(if 1 < int (length argv)
      then (let bps = atoi (argv ! 1) in if bps < 10 then 10 else bps) else 960) = rate"
    using assms(2) by (simp add: Let_def max_def)
  ultimately show ?thesis
    using assms(1) by (simp add: main_def Let_def copy_loop_eq fprintf_stdout_def)
qed

text \<open>A run with two or more arguments after the program's name.\<close>

lemma main_rejected:
  assumes "2 < length argv"
  shows "main argv input =
     Exited 1 \<lparr>stdin = input,
       trace = map Stderr (''usage: slow [speed] < input.txt'' @ [CHR 0x0A])\<rparr>"
  using assms by (simp add: main_def usage_def fprintf_stderr_def)

subsection \<open>What each stream sees of a trace\<close>

lemma stdout_of_append: "stdout_of (es @ fs) = stdout_of es @ stdout_of fs"
  by (induction es rule: stdout_of.induct) simp_all

lemma stderr_of_append: "stderr_of (es @ fs) = stderr_of es @ stderr_of fs"
  by (induction es rule: stderr_of.induct) simp_all

lemma usleeps_of_append: "usleeps_of (es @ fs) = usleeps_of es @ usleeps_of fs"
  by (induction es rule: usleeps_of.induct) simp_all

lemma stdout_of_Stdout: "stdout_of (map Stdout bs) = bs"
  by (induction bs) simp_all

lemma stderr_of_Stdout: "stderr_of (map Stdout bs) = []"
  by (induction bs) simp_all

lemma usleeps_of_Stdout: "usleeps_of (map Stdout bs) = []"
  by (induction bs) simp_all

lemma stderr_of_Stderr: "stderr_of (map Stderr bs) = bs"
  by (induction bs) simp_all

lemma stdout_of_Stderr: "stdout_of (map Stderr bs) = []"
  by (induction bs) simp_all

lemma stdout_of_byte_events: "stdout_of (byte_events d b) = [b]"
  by (simp add: byte_events_def)

lemma stderr_of_byte_events: "stderr_of (byte_events d b) = []"
  by (simp add: byte_events_def)

lemma usleeps_of_byte_events: "usleeps_of (byte_events d b) = (if d > 4 then [d] else [])"
  by (simp add: byte_events_def)

lemma stdout_of_loop: "stdout_of (concat (map (byte_events d) bs)) = bs"
  by (induction bs) (simp_all add: stdout_of_append stdout_of_byte_events)

lemma stderr_of_loop: "stderr_of (concat (map (byte_events d) bs)) = []"
  by (induction bs) (simp_all add: stderr_of_append stderr_of_byte_events)

lemma usleeps_of_loop:
  "usleeps_of (concat (map (byte_events d) bs)) =
     (if d > 4 then replicate (length bs) d else [])"
  by (induction bs) (simp_all add: usleeps_of_append usleeps_of_byte_events)

lemmas stream_simps =
  stdout_of_append stderr_of_append usleeps_of_append
  stdout_of_Stdout stderr_of_Stdout usleeps_of_Stdout
  stderr_of_Stderr stdout_of_Stderr
  stdout_of_loop stderr_of_loop usleeps_of_loop

subsection \<open>The rate and the delay\<close>

lemma digits_value_no_digit:
  "(case s of [] \<Rightarrow> True | ch # r \<Rightarrow> \<not> isdigit ch) \<Longrightarrow> digits_value acc s = acc"
  by (cases s) simp_all

lemma atoi_no_conversion: "no_conversion nptr \<Longrightarrow> atoi nptr = 0"
  by (cases "skip_sign (dropWhile isspace nptr)")
    (simp add: atoi_def strtol_def no_conversion_def digits_value_no_digit
      LONG_MIN_def LONG_MAX_def)

lemma atoi_range: "INT_MIN \<le> atoi nptr \<and> atoi nptr \<le> INT_MAX"
  using signed_take_bit_int_greater_eq_minus_exp [of 31 "strtol nptr"]
    signed_take_bit_int_less_exp [of 31 "strtol nptr"]
  by (simp add: atoi_def INT_MIN_def INT_MAX_def)

lemma delay_bounds:
  assumes "10 \<le> (rate::int)"
  shows "0 \<le> 1000000 div rate" and "1000000 div rate \<le> 100000"
    and "1000000 div rate * rate \<le> 1000000"
    and "1000000 < (1000000 div rate + 1) * rate"
proof -
  have pos: "0 < rate"
    using assms by simp
  show "0 \<le> 1000000 div rate"
    using pos by (simp add: pos_imp_zdiv_nonneg_iff)
  have "1000000 div rate \<le> 1000000 div 10"
    using assms by (intro zdiv_mono2) simp_all
  then show "1000000 div rate \<le> 100000"
    by simp
  have split: "rate * (1000000 div rate) + 1000000 mod rate = 1000000"
    by (rule mult_div_mod_eq)
  have low: "0 \<le> 1000000 mod rate" and high: "1000000 mod rate < rate"
    using pos by simp_all
  have swap: "1000000 div rate * rate = rate * (1000000 div rate)"
    by (rule mult.commute)
  have next_multiple: "(1000000 div rate + 1) * rate = rate * (1000000 div rate) + rate"
    by (simp add: algebra_simps)
  show "1000000 div rate * rate \<le> 1000000"
    unfolding swap using split low by linarith
  show "1000000 < (1000000 div rate + 1) * rate"
    unfolding next_multiple using split high by linarith
qed

lemma no_EOF_in_loop: "Fgetc EOF \<notin> set (concat (map (byte_events d) bs))"
  by (induction bs) (simp_all add: byte_events_def of_char_neq_EOF [symmetric])

lemma main_returned:
  assumes "main argv input = Returned status l w"
  shows "length argv \<le> 2" and "10 \<le> bps_of l" and "delay_of l = 1000000 div bps_of l"
proof -
  show few: "length argv \<le> 2"
  proof (rule ccontr)
    assume "\<not> length argv \<le> 2"
    then have "2 < length argv" by simp
    from main_rejected [OF this, of input] assms show False by simp
  qed
  from main_accepted [OF few refl refl, of input] assms
  show "10 \<le> bps_of l" and "delay_of l = 1000000 div bps_of l"
    by auto
qed

lemma main_defined: "main argv input \<noteq> Undefined"
proof (cases "length argv \<le> 2")
  case True
  from main_accepted [OF this refl refl, of input] show ?thesis by simp
next
  case False
  then have "2 < length argv" by simp
  from main_rejected [OF this, of input] show ?thesis by simp
qed

lemma locals_in_int_range:
  assumes "main argv input = Returned status l w"
  shows "INT_MIN \<le> bps_of l \<and> bps_of l \<le> INT_MAX"
    and "INT_MIN \<le> delay_of l \<and> delay_of l \<le> INT_MAX"
proof -
  have few: "length argv \<le> 2"
    using assms by (rule main_returned(1))
  from main_accepted [OF few refl refl, of input] assms atoi_range [of "argv ! 1"]
  show "INT_MIN \<le> bps_of l \<and> bps_of l \<le> INT_MAX"
    by (auto simp: INT_MIN_def INT_MAX_def)
  from delay_bounds(1,2) [OF main_returned(2) [OF assms]] main_returned(3) [OF assms]
  show "INT_MIN \<le> delay_of l \<and> delay_of l \<le> INT_MAX"
    by (simp add: INT_MIN_def INT_MAX_def)
qed

subsection \<open>Where each event of the loop stands in the trace\<close>

lemma byte_events_paced:
  "4 < d \<Longrightarrow> byte_events d b = [Fgetc (of_char b), Stdout b, Usleep d]"
  by (simp add: byte_events_def)

lemma length_loop_paced:
  "4 < d \<Longrightarrow> length (concat (map (byte_events d) bs)) = 3 * length bs"
  by (induction bs) (simp_all add: byte_events_paced)

lemma nth_loop_paced:
  assumes "4 < d" and "k < length bs"
  shows "concat (map (byte_events d) bs) ! (3 * k) = Fgetc (of_char (bs ! k))"
    and "concat (map (byte_events d) bs) ! (3 * k + 1) = Stdout (bs ! k)"
    and "concat (map (byte_events d) bs) ! (3 * k + 2) = Usleep d"
  using assms(2)
proof (induction bs arbitrary: k)
  case Nil
  {
    case 1 then show ?case by simp
  next
    case 2 then show ?case by simp
  next
    case 3 then show ?case by simp
  }
next
  case (Cons b bs)
  {
    case 1
    then show ?case
      using Cons.IH(1) [of "k - 1"] assms(1)
      by (cases k) (simp_all add: byte_events_paced)
  next
    case 2
    then show ?case
      using Cons.IH(2) [of "k - 1"] assms(1)
      by (cases k) (simp_all add: byte_events_paced)
  next
    case 3
    then show ?case
      using Cons.IH(3) [of "k - 1"] assms(1)
      by (cases k) (simp_all add: byte_events_paced)
  }
qed

lemma nth_run_paced:
  assumes "4 < d" and "k < length bs" and "length pre = 6"
  shows "(pre @ concat (map (byte_events d) bs) @ post) ! (6 + 3 * k) = Fgetc (of_char (bs ! k))"
    and "(pre @ concat (map (byte_events d) bs) @ post) ! (7 + 3 * k) = Stdout (bs ! k)"
    and "(pre @ concat (map (byte_events d) bs) @ post) ! (8 + 3 * k) = Usleep d"
proof -
  let ?loop = "concat (map (byte_events d) bs)"
  have len: "length ?loop = 3 * length bs"
    using assms(1) by (rule length_loop_paced)
  have inside: "3 * k + 2 < length ?loop"
    using assms(2) len by simp
  have "(pre @ ?loop @ post) ! (6 + i) = ?loop ! i" if "i < length ?loop" for i
    using that assms(3) by (simp add: nth_append)
  from this [of "3 * k"] this [of "3 * k + 1"] this [of "3 * k + 2"] inside
  show "(pre @ ?loop @ post) ! (6 + 3 * k) = Fgetc (of_char (bs ! k))"
    and "(pre @ ?loop @ post) ! (7 + 3 * k) = Stdout (bs ! k)"
    and "(pre @ ?loop @ post) ! (8 + 3 * k) = Usleep d"
    using nth_loop_paced [OF assms(1,2)] by (simp_all add: add.assoc [symmetric])
qed

lemma usleeps_before_first_write:
  "usleeps_of (take 8 (map Stdout pre @ concat (map (byte_events d) bs) @ Fgetc EOF # map Stdout post)) = []"
  if "length pre = 6"
proof (cases bs)
  case Nil
  then show ?thesis
    using that by (cases post) (simp_all add: stream_simps)
next
  case (Cons b bs')
  then show ?thesis
    using that by (simp add: stream_simps byte_events_def)
qed

lemma main_default_AB:
  "main [''slow''] ''AB'' =
     Returned 0 \<lparr>bps_of = 960, delay_of = 1041\<rparr>
       \<lparr>stdin = [],
        trace = [Stdout (CHR 0x1B), Stdout CHR ''['', Stdout CHR ''H'',
                 Stdout (CHR 0x1B), Stdout CHR ''['', Stdout CHR ''J'',
                 Fgetc 65, Stdout CHR ''A'', Usleep 1041,
                 Fgetc 66, Stdout CHR ''B'', Usleep 1041, Fgetc EOF,
                 Stdout (CHR 0x1B), Stdout CHR ''['', Stdout CHR ''2'', Stdout CHR ''4'',
                 Stdout CHR '';'', Stdout CHR ''0'', Stdout CHR ''H'']\<rparr>"
  by (simp add: main_accepted [of _ _ 1041] byte_events_def)

section \<open>The claims\<close>

text \<open>
  Claim C1. For every input \<open>B\<close> (empty, with NUL bytes, with bytes above 127,
  any list of bytes at all), a run with at most one argument after the
  program's name returns, and standard output has received exactly the six
  bytes ESC \<^verbatim>\<open>[H\<close> ESC \<^verbatim>\<open>[J\<close>, then \<open>B\<close> unchanged and in order, then the
  seven bytes ESC \<^verbatim>\<open>[24;0H\<close>. Each control sequence is written once
  whatever the length of \<open>B\<close>: the output is 13 bytes longer than the input.
\<close>

theorem output_is_framed_input:
  assumes "length argv \<le> 2"
  shows "\<exists>l w. main argv B = Returned 0 l w
           \<and> stdout_of (trace w) =
               [CHR 0x1B, CHR ''['', CHR ''H'', CHR 0x1B, CHR ''['', CHR ''J'']
               @ B @ [CHR 0x1B, CHR ''['', CHR ''2'', CHR ''4'', CHR '';'', CHR ''0'', CHR ''H'']
           \<and> length (stdout_of (trace w)) = 6 + length B + 7"
  using main_accepted [OF assms refl refl, of B] by (simp add: stream_simps)

theorem output_is_framed_input_witness:
  "length [''slow''] \<le> 2
   \<and> (\<exists>l w. main [''slow''] [CHR 0x00, CHR 0xE2, CHR 0x98, CHR 0x83] = Returned 0 l w
           \<and> stdout_of (trace w) =
               [CHR 0x1B, CHR ''['', CHR ''H'', CHR 0x1B, CHR ''['', CHR ''J'',
                CHR 0x00, CHR 0xE2, CHR 0x98, CHR 0x83,
                CHR 0x1B, CHR ''['', CHR ''2'', CHR ''4'', CHR '';'', CHR ''0'', CHR ''H'']
           \<and> length (stdout_of (trace w)) = 17)
   \<and> (\<exists>l w. main [''slow''] [] = Returned 0 l w
           \<and> stdout_of (trace w) =
               [CHR 0x1B, CHR ''['', CHR ''H'', CHR 0x1B, CHR ''['', CHR ''J'',
                CHR 0x1B, CHR ''['', CHR ''2'', CHR ''4'', CHR '';'', CHR ''0'', CHR ''H'']
           \<and> length (stdout_of (trace w)) = 13)"
  using output_is_framed_input [of "[''slow'']" "[CHR 0x00, CHR 0xE2, CHR 0x98, CHR 0x83]"]
    output_is_framed_input [of "[''slow'']" "[]"]
  by simp

text \<open>
  Claim C2. When the rate argument is parsed to a value below 10 (a negative
  one, or the 0 that \<^verbatim>\<open>atoi\<close> gives for an argument that holds no
  number), the rate that divides 1,000,000 is exactly 10. An argument that
  holds no number is parsed to 0; the run is then an ordinary one: \<^verbatim>\<open>main\<close>
  returns 0 and nothing is written to standard error.
\<close>

theorem low_rate_is_raised_to_ten:
  assumes "length argv = 2"
  shows "(no_conversion (argv ! 1) \<longrightarrow> atoi (argv ! 1) = 0)
         \<and> (atoi (argv ! 1) < 10 \<longrightarrow>
              (\<exists>l w. main argv input = Returned 0 l w
                 \<and> bps_of l = 10
                 \<and> delay_of l = 1000000 div 10
                 \<and> stderr_of (trace w) = []))"
proof -
  have "length argv \<le> 2"
    using assms by simp
  from main_accepted [OF this refl refl, of input] assms
  have "atoi (argv ! 1) < 10 \<longrightarrow>
              (\<exists>l w. main argv input = Returned 0 l w
                 \<and> bps_of l = 10
                 \<and> delay_of l = 1000000 div 10
                 \<and> stderr_of (trace w) = [])"
    by (simp add: stream_simps max_def)
  then show ?thesis
    using atoi_no_conversion [of "argv ! 1"] by blast
qed

theorem low_rate_is_raised_to_ten_witness:
  "length [''slow'', ''abc''] = 2 \<and> no_conversion ''abc'' \<and> atoi ''abc'' = 0
   \<and> (\<exists>l w. main [''slow'', ''abc''] ''AB'' = Returned 0 l w
               \<and> bps_of l = 10
               \<and> delay_of l = 1000000 div 10
               \<and> stderr_of (trace w) = [])
   \<and> length [''slow'', ''-5''] = 2 \<and> atoi ''-5'' = - 5
   \<and> (\<exists>l w. main [''slow'', ''-5''] ''AB'' = Returned 0 l w
               \<and> bps_of l = 10
               \<and> delay_of l = 1000000 div 10
               \<and> stderr_of (trace w) = [])"
proof -
  have abc: "no_conversion ''abc''"
    by (simp add: no_conversion_def isspace_def isdigit_def)
  have minus: "atoi ''-5'' = - 5"
    by (simp add: atoi_def strtol_def isspace_def isdigit_def LONG_MIN_def LONG_MAX_def)
  show ?thesis
    using low_rate_is_raised_to_ten [of "[''slow'', ''abc'']" "''AB''"]
      low_rate_is_raised_to_ten [of "[''slow'', ''-5'']" "''AB''"] abc minus
    by simp
qed

text \<open>
  Claim C3. In a run that passes the argument check the rate in effect is the
  parsed argument raised to 10 if it is lower, or 960 without an argument; it
  is at least 10, and the delay is 1,000,000 divided by it, rounded towards
  zero: the largest number whose product with the rate does not exceed
  1,000,000. The delay is computed before the first byte is read and the loop
  never assigns to it: every suspension of the run is for that same value.
\<close>

theorem delay_is_million_over_rate:
  assumes "length argv \<le> 2"
  shows "\<exists>l w. main argv input = Returned 0 l w
           \<and> bps_of l = (if length argv = 2 then max 10 (atoi (argv ! 1)) else 960)
           \<and> 10 \<le> bps_of l
           \<and> delay_of l = 1000000 div bps_of l
           \<and> delay_of l * bps_of l \<le> 1000000
           \<and> 1000000 < (delay_of l + 1) * bps_of l
           \<and> set (usleeps_of (trace w)) \<subseteq> {delay_of l}"
proof -
  let ?rate = "if 1 < length argv then max 10 (atoi (argv ! 1)) else 960"
  have rate: "10 \<le> ?rate"
    by simp
  have same: "?rate = (if length argv = 2 then max 10 (atoi (argv ! 1)) else 960)"
    using assms by auto
  show ?thesis
    using main_accepted [OF assms refl refl, of input] delay_bounds(3,4) [OF rate] rate
    unfolding same by (auto simp add: stream_simps)
qed

theorem delay_is_million_over_rate_witness:
  "length [''slow'', ''480''] \<le> 2
   \<and> (\<exists>l w. main [''slow'', ''480''] ''AB'' = Returned 0 l w
           \<and> bps_of l = 480
           \<and> 10 \<le> bps_of l
           \<and> delay_of l = 2083
           \<and> delay_of l * bps_of l \<le> 1000000
           \<and> 1000000 < (delay_of l + 1) * bps_of l
           \<and> set (usleeps_of (trace w)) \<subseteq> {delay_of l})
   \<and> length [''slow''] \<le> 2
   \<and> (\<exists>l w. main [''slow''] ''AB'' = Returned 0 l w
           \<and> bps_of l = 960
           \<and> 10 \<le> bps_of l
           \<and> delay_of l = 1041
           \<and> delay_of l * bps_of l \<le> 1000000
           \<and> 1000000 < (delay_of l + 1) * bps_of l
           \<and> set (usleeps_of (trace w)) \<subseteq> {delay_of l})"
proof -
  have "atoi ''480'' = 480"
    by (simp add: atoi_def strtol_def isspace_def isdigit_def LONG_MIN_def LONG_MAX_def)
  then show ?thesis
    using delay_is_million_over_rate [of "[''slow'', ''480'']" "''AB''"]
      delay_is_million_over_rate [of "[''slow'']" "''AB''"]
    by auto
qed

text \<open>
  Claim C4. When the program is started with two or more arguments after its
  name, it writes the usage line \<^verbatim>\<open>usage: slow [speed] < input.txt\<close>, ended
  by a newline as the format string of line 76 has it, and nothing else, to
  standard error; it exits with status 1; and nothing is written to standard
  output: neither control sequence and no input byte (the input is not even
  read).
\<close>

theorem usage_on_extra_arguments:
  assumes "2 < length argv"
  shows "\<exists>w. main argv input = Exited 1 w
           \<and> stderr_of (trace w) = ''usage: slow [speed] < input.txt'' @ [CHR 0x0A]
           \<and> stdout_of (trace w) = []
           \<and> length (stdout_of (trace w)) = 0
           \<and> stdin w = input"
  using main_rejected [OF assms, of input] by (simp add: stream_simps)

theorem usage_on_extra_arguments_witness:
  "2 < length [''slow'', ''100'', ''200'']
   \<and> (\<exists>w. main [''slow'', ''100'', ''200''] ''AB'' = Exited 1 w
           \<and> stderr_of (trace w) = ''usage: slow [speed] < input.txt'' @ [CHR 0x0A]
           \<and> stdout_of (trace w) = []
           \<and> length (stdout_of (trace w)) = 0
           \<and> stdin w = ''AB'')"
  using usage_on_extra_arguments [of "[''slow'', ''100'', ''200'']" "''AB''"] by simp

text \<open>
  Claim C5. The loop, started with any delay in any state of the world, does
  this for each byte of the remaining input in turn, and nothing else: it
  reads the byte, writes it to standard output at once, and then calls
  \<^verbatim>\<open>usleep\<close> with exactly the delay if the delay is above 4 and makes no
  such call if it is 4 or less; only then is the next byte read. The read
  that finds the end of the input is its last event. (The trace holds the
  call and its argument; how long the system then suspends the process is
  not the program's.)
\<close>

theorem loop_writes_then_suspends:
  "stdin (copy_loop delay w) = []
   \<and> trace (copy_loop delay w) =
       trace w
       @ concat (map (\<lambda>b. [Fgetc (of_char b), Stdout b] @ (if delay > 4 then [Usleep delay] else []))
           (stdin w))
       @ [Fgetc EOF]"
proof -
  have "byte_events delay =
      (\<lambda>b. [Fgetc (of_char b), Stdout b] @ (if delay > 4 then [Usleep delay] else []))"
    by (rule ext) (simp add: byte_events_def)
  then show ?thesis
    by (simp add: copy_loop_eq)
qed

theorem loop_writes_then_suspends_witness:
  "trace (copy_loop 1041 \<lparr>stdin = ''AB'', trace = []\<rparr>) =
     [Fgetc 65, Stdout CHR ''A'', Usleep 1041, Fgetc 66, Stdout CHR ''B'', Usleep 1041, Fgetc EOF]
   \<and> trace (copy_loop 4 \<lparr>stdin = ''AB'', trace = []\<rparr>) =
     [Fgetc 65, Stdout CHR ''A'', Fgetc 66, Stdout CHR ''B'', Fgetc EOF]"
  using loop_writes_then_suspends [of 1041 "\<lparr>stdin = ''AB'', trace = []\<rparr>"]
    loop_writes_then_suspends [of 4 "\<lparr>stdin = ''AB'', trace = []\<rparr>"]
  by simp

text \<open>
  Claim C6 says that each output byte is preceded in time by the per-byte
  delay when the delay is above 4. The first input byte is not: with the
  default rate (delay 1041) and the input \<^verbatim>\<open>A\<close>, the byte is written right
  after the leading control sequence, and the only suspension of the run
  comes after it.
\<close>

theorem first_byte_is_not_preceded_by_a_delay:
  "main [''slow''] ''A'' =
     Returned 0 \<lparr>bps_of = 960, delay_of = 1041\<rparr>
       \<lparr>stdin = [],
        trace = [Stdout (CHR 0x1B), Stdout CHR ''['', Stdout CHR ''H'',
                 Stdout (CHR 0x1B), Stdout CHR ''['', Stdout CHR ''J'',
                 Fgetc 65, Stdout CHR ''A'', Usleep 1041, Fgetc EOF,
                 Stdout (CHR 0x1B), Stdout CHR ''['', Stdout CHR ''2'', Stdout CHR ''4'',
                 Stdout CHR '';'', Stdout CHR ''0'', Stdout CHR ''H'']\<rparr>
   \<and> usleeps_of [Stdout (CHR 0x1B), Stdout CHR ''['', Stdout CHR ''H'',
                 Stdout (CHR 0x1B), Stdout CHR ''['', Stdout CHR ''J'',
                 Fgetc 65, Stdout CHR ''A''] = []"
  by (simp add: main_accepted [of _ _ 1041] byte_events_def)

text \<open>
  Claim C6, as amended. Every byte of the input appears on standard output in
  the order in which it was read. No suspension happens before the first
  input byte is written. When the delay is above 4, every later input byte
  is preceded by the delay: the suspension that follows the write of the
  byte before it (at \<open>7 + 3 * k\<close> the trace has the write of byte \<open>k\<close>, two
  places earlier the suspension, three places earlier the write of byte
  \<open>k - 1\<close>; between the suspension and the write there is only the read of
  byte \<open>k\<close>).
\<close>

theorem delay_precedes_all_but_first_byte:
  assumes "length argv \<le> 2"
  shows "\<exists>l w. main argv B = Returned 0 l w
           \<and> stdout_of (trace w) =
               [CHR 0x1B, CHR ''['', CHR ''H'', CHR 0x1B, CHR ''['', CHR ''J'']
               @ B @ [CHR 0x1B, CHR ''['', CHR ''2'', CHR ''4'', CHR '';'', CHR ''0'', CHR ''H'']
           \<and> usleeps_of (take 8 (trace w)) = []
           \<and> (4 < delay_of l \<longrightarrow>
                (\<forall>k<length B.
                    trace w ! (7 + 3 * k) = Stdout (B ! k)
                    \<and> (0 < k \<longrightarrow> trace w ! (7 + 3 * k - 2) = Usleep (delay_of l)
                               \<and> trace w ! (7 + 3 * k - 3) = Stdout (B ! (k - 1)))))"
proof -
  let ?d = "1000000 div (if 1 < length argv then max 10 (atoi (argv ! 1)) else 960)"
  let ?pre = "[CHR 0x1B, CHR ''['', CHR ''H'', CHR 0x1B, CHR ''['', CHR ''J'']"
  let ?post = "[CHR 0x1B, CHR ''['', CHR ''2'', CHR ''4'', CHR '';'', CHR ''0'', CHR ''H'']"
  let ?tr = "map Stdout ?pre @ concat (map (byte_events ?d) B) @ Fgetc EOF # map Stdout ?post"
  have quiet: "usleeps_of (take 8 ?tr) = []"
    by (rule usleeps_before_first_write) simp
  have "?tr ! (7 + 3 * k) = Stdout (B ! k)
      \<and> (0 < k \<longrightarrow> ?tr ! (7 + 3 * k - 2) = Usleep ?d \<and> ?tr ! (7 + 3 * k - 3) = Stdout (B ! (k - 1)))"
    if paced: "4 < ?d" and k: "k < length B" for k
  proof (cases k)
    case 0
    then show ?thesis
      using nth_run_paced(2) [OF paced k, of "map Stdout ?pre"] by simp
  next
    case (Suc j)
    then have j: "j < length B"
      using k by simp
    have "7 + 3 * k - 2 = 8 + 3 * j" and "7 + 3 * k - 3 = 7 + 3 * j"
      using Suc by simp_all
    then show ?thesis
      using nth_run_paced(2) [OF paced k, of "map Stdout ?pre"]
        nth_run_paced(2,3) [OF paced j, of "map Stdout ?pre"] Suc
      by simp
  qed
  then show ?thesis
    using main_accepted [OF assms refl refl, of B] quiet
    by (simp add: stream_simps)
qed

theorem delay_precedes_all_but_first_byte_witness:
  "length [''slow''] \<le> 2
   \<and> (\<exists>l w. main [''slow''] ''AB'' = Returned 0 l w
           \<and> stdout_of (trace w) =
               [CHR 0x1B, CHR ''['', CHR ''H'', CHR 0x1B, CHR ''['', CHR ''J'']
               @ ''AB'' @ [CHR 0x1B, CHR ''['', CHR ''2'', CHR ''4'', CHR '';'', CHR ''0'', CHR ''H'']
           \<and> usleeps_of (take 8 (trace w)) = []
           \<and> 4 < delay_of l
           \<and> (\<forall>k<length ''AB''.
                    trace w ! (7 + 3 * k) = Stdout (''AB'' ! k)
                    \<and> (0 < k \<longrightarrow> trace w ! (7 + 3 * k - 2) = Usleep (delay_of l)
                               \<and> trace w ! (7 + 3 * k - 3) = Stdout (''AB'' ! (k - 1)))))"
  using delay_precedes_all_but_first_byte [of "[''slow'']" "''AB''"] main_default_AB
  by auto

text \<open>
  Claim C7. Whatever the (finite) input, the empty one too, a run that passes
  the argument check reads it to its end, where \<^verbatim>\<open>fgetc\<close> returns
  \<^verbatim>\<open>EOF\<close> for the first and only time; the trailing control sequence is
  then the last thing written, after the leading sequence and every input
  byte; \<^verbatim>\<open>main\<close> returns 0 and nothing is written to standard error.
\<close>

theorem end_of_input_ends_the_run:
  assumes "length argv \<le> 2"
  shows "\<exists>l w es. main argv input = Returned 0 l w
           \<and> stdin w = []
           \<and> stderr_of (trace w) = []
           \<and> trace w = es @ [Fgetc EOF]
                @ map Stdout [CHR 0x1B, CHR ''['', CHR ''2'', CHR ''4'', CHR '';'', CHR ''0'', CHR ''H'']
           \<and> Fgetc EOF \<notin> set es
           \<and> stdout_of es = [CHR 0x1B, CHR ''['', CHR ''H'', CHR 0x1B, CHR ''['', CHR ''J''] @ input"
proof -
  let ?d = "1000000 div (if 1 < length argv then max 10 (atoi (argv ! 1)) else 960)"
  let ?es = "map Stdout [CHR 0x1B, CHR ''['', CHR ''H'', CHR 0x1B, CHR ''['', CHR ''J'']
    @ concat (map (byte_events ?d) input)"
  have "Fgetc EOF \<notin> set ?es"
    using no_EOF_in_loop [of ?d input] by simp
  moreover have "stdout_of ?es = [CHR 0x1B, CHR ''['', CHR ''H'', CHR 0x1B, CHR ''['', CHR ''J''] @ input"
    by (simp add: stream_simps)
  ultimately show ?thesis
    using main_accepted [OF assms refl refl, of input]
    by (simp add: stream_simps del: set_concat)
qed

theorem end_of_input_ends_the_run_witness:
  "length [''slow''] \<le> 2
   \<and> (\<exists>l w es. main [''slow''] [] = Returned 0 l w
           \<and> stdin w = []
           \<and> stderr_of (trace w) = []
           \<and> trace w = es @ [Fgetc EOF]
                @ map Stdout [CHR 0x1B, CHR ''['', CHR ''2'', CHR ''4'', CHR '';'', CHR ''0'', CHR ''H'']
           \<and> Fgetc EOF \<notin> set es
           \<and> stdout_of es = [CHR 0x1B, CHR ''['', CHR ''H'', CHR 0x1B, CHR ''['', CHR ''J''] @ [])"
  using end_of_input_ends_the_run [of "[''slow'']" "[]"] by simp

text \<open>
  Claim C8. In every run that reaches the division of line 96 (every run with
  at most one argument after the program's name) the divisor \<^verbatim>\<open>bps\<close> is
  at least 10, hence neither zero nor negative, and the division has a
  defined result. The delay depends on the rate alone: two runs with the
  same rate have the same delay, whatever their arguments and inputs.
\<close>

theorem divisor_is_never_zero:
  assumes "length argv \<le> 2"
  shows "\<exists>l w. main argv input = Returned 0 l w
           \<and> 10 \<le> bps_of l
           \<and> bps_of l \<noteq> 0
           \<and> c_div (1000 * 1000) (bps_of l) = Some (delay_of l)
           \<and> (\<forall>argv' input' status' l' w'.
                 main argv' input' = Returned status' l' w' \<and> bps_of l' = bps_of l
                   \<longrightarrow> delay_of l' = delay_of l)"
proof -
  let ?rate = "if 1 < length argv then max 10 (atoi (argv ! 1)) else 960"
  let ?l = "\<lparr>bps_of = ?rate, delay_of = 1000000 div ?rate\<rparr>"
  have rate: "10 \<le> ?rate"
    by simp
  obtain w where run: "main argv input = Returned 0 ?l w"
    using main_accepted [OF assms refl refl, of input] by simp
  have "c_div (1000 * 1000) (bps_of ?l) = Some (delay_of ?l)"
    using c_div_rate [OF rate] by simp
  moreover have "delay_of l' = delay_of ?l"
    if "main argv' input' = Returned status' l' w'" and "bps_of l' = bps_of ?l"
    for argv' input' status' l' w'
    using main_returned(3) [OF that(1)] that(2) by simp
  ultimately show ?thesis
    using run rate by (intro exI [of _ ?l] exI [of _ w]) auto
qed

theorem divisor_is_never_zero_witness:
  "length [''slow'', ''abc''] \<le> 2
   \<and> (\<exists>l w. main [''slow'', ''abc''] ''AB'' = Returned 0 l w
           \<and> 10 \<le> bps_of l
           \<and> bps_of l \<noteq> 0
           \<and> c_div (1000 * 1000) (bps_of l) = Some (delay_of l)
           \<and> (\<forall>argv' input' status' l' w'.
                 main argv' input' = Returned status' l' w' \<and> bps_of l' = bps_of l
                   \<longrightarrow> delay_of l' = delay_of l))"
  using divisor_is_never_zero [of "[''slow'', ''abc'']" "''AB''"] by simp

text \<open>
  Claim C9. When the input has \<open>L > 0\<close> bytes and the delay is above 4, a
  run that passes the argument check suspends exactly \<open>L\<close> times, each time
  for the delay, \<open>L\<close> times the delay in all: once right after the write of
  each byte, the last byte too, so that the trace ends with the write of the
  last byte, a suspension, the read that finds the end of the input, and the
  trailing control sequence.
\<close>

theorem one_suspension_per_byte:
  assumes "length argv \<le> 2" and "B \<noteq> []"
  shows "\<exists>l w. main argv B = Returned 0 l w
           \<and> (4 < delay_of l \<longrightarrow>
                usleeps_of (trace w) = replicate (length B) (delay_of l)
                \<and> length (usleeps_of (trace w)) = length B
                \<and> sum_list (usleeps_of (trace w)) = int (length B) * delay_of l
                \<and> (\<forall>k<length B.
                      trace w ! (7 + 3 * k) = Stdout (B ! k)
                      \<and> trace w ! (8 + 3 * k) = Usleep (delay_of l))
                \<and> (\<exists>es. trace w =
                      es @ [Stdout (last B), Usleep (delay_of l), Fgetc EOF]
                         @ map Stdout [CHR 0x1B, CHR ''['', CHR ''2'', CHR ''4'', CHR '';'', CHR ''0'', CHR ''H'']))"
proof -
  define rate where "rate = (if 1 < length argv then max 10 (atoi (argv ! 1)) else 960)"
  define d where "d = 1000000 div rate"
  define pre where "pre = map Stdout [CHR 0x1B, CHR ''['', CHR ''H'', CHR 0x1B, CHR ''['', CHR ''J'']"
  define post where
    "post = map Stdout [CHR 0x1B, CHR ''['', CHR ''2'', CHR ''4'', CHR '';'', CHR ''0'', CHR ''H'']"
  define tr where "tr = pre @ concat (map (byte_events d) B) @ [Fgetc EOF] @ post"
  have run: "main argv B = Returned 0 \<lparr>bps_of = rate, delay_of = d\<rparr> \<lparr>stdin = [], trace = tr\<rparr>"
    unfolding tr_def pre_def post_def by (rule main_accepted [OF assms(1) rate_def d_def])
  have count: "usleeps_of tr = replicate (length B) d" if "4 < d"
    using that by (simp add: tr_def pre_def post_def stream_simps)
  have total: "sum_list (usleeps_of tr) = int (length B) * d" if "4 < d"
    by (simp only: count [OF that] sum_list_replicate)
  have each: "tr ! (7 + 3 * k) = Stdout (B ! k) \<and> tr ! (8 + 3 * k) = Usleep d"
    if "4 < d" and "k < length B" for k
    using nth_run_paced(2,3) [OF that, of pre "[Fgetc EOF] @ post"]
    by (simp add: tr_def pre_def)
  have final: "\<exists>es. tr = es @ [Stdout (last B), Usleep d, Fgetc EOF] @ post" if "4 < d"
  proof -
    have "concat (map (byte_events d) (butlast B @ [last B])) =
        concat (map (byte_events d) (butlast B)) @ byte_events d (last B)"
      by simp
    then have "concat (map (byte_events d) B) =
        concat (map (byte_events d) (butlast B)) @ byte_events d (last B)"
      by (simp only: append_butlast_last_id [OF assms(2)])
    then have "tr = (pre @ concat (map (byte_events d) (butlast B)) @ [Fgetc (of_char (last B))])
        @ [Stdout (last B), Usleep d, Fgetc EOF] @ post"
      using that by (simp add: tr_def byte_events_paced)
    then show ?thesis
      by (rule exI)
  qed
  have "4 < d \<longrightarrow>
      usleeps_of tr = replicate (length B) d
      \<and> length (usleeps_of tr) = length B
      \<and> sum_list (usleeps_of tr) = int (length B) * d
      \<and> (\<forall>k<length B. tr ! (7 + 3 * k) = Stdout (B ! k) \<and> tr ! (8 + 3 * k) = Usleep d)
      \<and> (\<exists>es. tr = es @ [Stdout (last B), Usleep d, Fgetc EOF] @ post)"
    using count total each final by simp
  then show ?thesis
    unfolding run post_def
    by (intro exI [of _ "\<lparr>bps_of = rate, delay_of = d\<rparr>"] exI [of _ "\<lparr>stdin = [], trace = tr\<rparr>"])
      (simp add: sum_list_replicate)
qed

theorem one_suspension_per_byte_witness:
  "length [''slow''] \<le> 2 \<and> ''AB'' \<noteq> []
   \<and> (\<exists>l w. main [''slow''] ''AB'' = Returned 0 l w
           \<and> 4 < delay_of l
           \<and> usleeps_of (trace w) = replicate (length ''AB'') (delay_of l)
           \<and> length (usleeps_of (trace w)) = length ''AB''
           \<and> sum_list (usleeps_of (trace w)) = int (length ''AB'') * delay_of l
           \<and> (\<forall>k<length ''AB''.
                 trace w ! (7 + 3 * k) = Stdout (''AB'' ! k)
                 \<and> trace w ! (8 + 3 * k) = Usleep (delay_of l))
           \<and> (\<exists>es. trace w =
                 es @ [Stdout (last ''AB''), Usleep (delay_of l), Fgetc EOF]
                    @ map Stdout [CHR 0x1B, CHR ''['', CHR ''2'', CHR ''4'', CHR '';'', CHR ''0'', CHR ''H'']))"
  using one_suspension_per_byte [of "[''slow'']" "''AB''"] main_default_AB
  by auto

text \<open>
  Claim C10. In every run that passes the argument check the delay lies
  between 0 and 100,000 microseconds; a rate argument parsed to more than
  1,000,000 gives the delay 0, and then the run never suspends.
\<close>

theorem delay_is_bounded:
  assumes "length argv \<le> 2"
  shows "\<exists>l w. main argv input = Returned 0 l w
           \<and> 0 \<le> delay_of l
           \<and> delay_of l \<le> 100000
           \<and> (length argv = 2 \<and> 1000000 < atoi (argv ! 1)
                \<longrightarrow> delay_of l = 0 \<and> usleeps_of (trace w) = [])"
proof -
  let ?rate = "if 1 < length argv then max 10 (atoi (argv ! 1)) else 960"
  have rate: "10 \<le> ?rate"
    by simp
  have "1000000 div ?rate = 0" if "length argv = 2" and "1000000 < atoi (argv ! 1)"
    using that by (simp add: max_def)
  then show ?thesis
    using main_accepted [OF assms refl refl, of input] delay_bounds(1,2) [OF rate]
    by (simp add: stream_simps)
qed

theorem delay_is_bounded_witness:
  "length [''slow'', ''2000000''] \<le> 2
   \<and> 1000000 < atoi ''2000000''
   \<and> (\<exists>l w. main [''slow'', ''2000000''] ''AB'' = Returned 0 l w
           \<and> 0 \<le> delay_of l
           \<and> delay_of l \<le> 100000
           \<and> delay_of l = 0 \<and> usleeps_of (trace w) = [])"
proof -
  have "atoi ''2000000'' = 2000000"
    by (simp add: atoi_def strtol_def isspace_def isdigit_def LONG_MIN_def LONG_MAX_def)
  then show ?thesis
    using delay_is_bounded [of "[''slow'', ''2000000'']" "''AB''"] by simp
qed

end
